theory Spec2Isabelle
  imports
    Main
    "HOL-Library.Sublist"
    "HOL-Library.AList"
    "HOL-Library.Multiset"
    "HOL-Library.Product_Lexorder"
    "HOL-Library.List_Lexorder"
begin

section \<open>Python values\<close>

subsection \<open>Strings\<close>

text \<open>
  A Python \<^verbatim>\<open>str\<close> is a sequence of Unicode code points. It is modelled as the list of
  its code points, so that length, comparison (\<^verbatim>\<open><\<close> on \<^verbatim>\<open>str\<close> is lexicographic on
  code points, which is the order of \<^theory_text>\<open>List_Lexorder\<close> on \<^typ>\<open>nat list\<close>) and
  whitespace are those of Python. \<open>str\<close> reads an ASCII literal.
\<close>

type_synonym pystr = "nat list"

definition str :: "string \<Rightarrow> pystr" where
  "str s = map of_char s"

text \<open>The delimiter \<^verbatim>\<open>"->"\<close> that both scripts hard-code.\<close>

definition arrow :: pystr where
  "arrow = [45, 62]"

text \<open>\<^verbatim>\<open>sub in s\<close> on strings: \<open>sub\<close> occurs in \<open>s\<close> as a contiguous substring.\<close>

fun contains :: "pystr \<Rightarrow> pystr \<Rightarrow> bool" where
  "contains sub [] = (sub = [])"
| "contains sub (c # cs) = (prefix sub (c # cs) \<or> contains sub cs)"

text \<open>
  \<^verbatim>\<open>str.isspace\<close> of one code point (CPython's \<^verbatim>\<open>_PyUnicode_IsWhitespace\<close>), and
  \<^verbatim>\<open>s.strip()\<close>, which drops the whitespace at both ends.
\<close>

definition is_space :: "nat \<Rightarrow> bool" where
  "is_space c \<longleftrightarrow>
     (9 \<le> c \<and> c \<le> 13) \<or> (28 \<le> c \<and> c \<le> 32) \<or> c = 133 \<or> c = 160 \<or> c = 5760 \<or>
     (8192 \<le> c \<and> c \<le> 8202) \<or> c = 8232 \<or> c = 8233 \<or> c = 8239 \<or> c = 8287 \<or> c = 12288"

definition strip :: "pystr \<Rightarrow> pystr" where
  "strip s = rev (dropWhile is_space (rev (dropWhile is_space s)))"

text \<open>\<^verbatim>\<open>sep.join(parts)\<close>.\<close>

fun join :: "pystr \<Rightarrow> pystr list \<Rightarrow> pystr" where
  "join sep [] = []"
| "join sep [x] = x"
| "join sep (x # y # ys) = x @ sep @ join sep (y # ys)"

text \<open>
  \<^verbatim>\<open>s.split(sep)\<close> for a non-empty separator: the text is cut at each occurrence of
  \<open>sep\<close>, found from the left without overlap. \<open>cur\<close> is the piece being read. (Python
  raises \<^verbatim>\<open>ValueError\<close> on an empty separator; the scripts only split on \<^verbatim>\<open>"->"\<close>.)
\<close>

function split_from :: "pystr \<Rightarrow> pystr \<Rightarrow> pystr \<Rightarrow> pystr list" where
  "split_from sep cur [] = [cur]"
| "split_from sep cur (c # cs) =
     (if sep \<noteq> [] \<and> prefix sep (c # cs)
      then cur # split_from sep [] (drop (length sep) (c # cs))
      else split_from sep (cur @ [c]) cs)"
  by pat_completeness auto
termination
  by (relation "measure (\<lambda>(sep, cur, s). length s)") (auto simp: neq_Nil_conv)

definition split :: "pystr \<Rightarrow> pystr \<Rightarrow> pystr list" where
  "split s sep = split_from sep [] s"

text \<open>\<^verbatim>\<open>s.endswith(suffix)\<close>.\<close>

definition endswith :: "pystr \<Rightarrow> pystr \<Rightarrow> bool" where
  "endswith s sfx = suffix sfx s"

subsection \<open>JSON documents as \<^verbatim>\<open>json.load\<close> returns them\<close>

text \<open>
  \<^verbatim>\<open>json.load\<close> returns \<^verbatim>\<open>None\<close>, \<^verbatim>\<open>bool\<close>, \<^verbatim>\<open>int\<close> (unbounded), \<^verbatim>\<open>float\<close>,
  \<^verbatim>\<open>str\<close>, \<^verbatim>\<open>list\<close> or \<^verbatim>\<open>dict\<close>. A \<^verbatim>\<open>dict\<close> keeps its keys in insertion order and
  never holds a key twice: it is an association list, in insertion order, whose keys are
  distinct (\<open>wf_json\<close> below). \<^verbatim>\<open>d[k] = v\<close> is \<^const>\<open>AList.update\<close>: it replaces the
  value in place when the key is there and appends the entry otherwise.

  Neither script computes with a \<^verbatim>\<open>float\<close>; only whether it is zero is ever read
  (truthiness). A finite float is sign, mantissa and binary exponent.
\<close>

datatype pyfloat = Finite bool nat int | Infinite bool | NaN

datatype json =
    JNull
  | JBool bool
  | JInt int
  | JFloat pyfloat
  | JStr pystr
  | JList "json list"
  | JObj "(pystr \<times> json) list"

fun wf_json :: "json \<Rightarrow> bool" where
  "wf_json (JObj items) = (distinct (map fst items) \<and> (\<forall>(k, v) \<in> set items. wf_json v))"
| "wf_json (JList xs) = (\<forall>x \<in> set xs. wf_json x)"
| "wf_json v = True"

text \<open>Every key of every object of a document, at any depth.\<close>

fun all_keys :: "json \<Rightarrow> pystr set" where
  "all_keys (JObj items) = fst ` set items \<union> (\<Union>(k, v) \<in> set items. all_keys v)"
| "all_keys (JList xs) = (\<Union>x \<in> set xs. all_keys x)"
| "all_keys v = {}"

section \<open>The key filter (\<^verbatim>\<open>tools/delete_sub_addr.py\<close>)\<close>

text \<open>
  \<^verbatim>\<open>remove_keys_with_arrow(json_data)\<close>. The loop over \<^verbatim>\<open>json_data.items()\<close> is the
  \<^const>\<open>fold\<close>, with \<^verbatim>\<open>cleaned_dict\<close> as its accumulator. The source tests
  \<^verbatim>\<open>"->" not in key\<close>; the substring is the parameter \<open>d\<close> of \<open>remove_keys_with\<close>, and
  the source's function is its instance at \<^const>\<open>arrow\<close>.
\<close>

fun remove_keys_with :: "pystr \<Rightarrow> json \<Rightarrow> json" where
  "remove_keys_with d (JObj items) =
     JObj (fold (\<lambda>(key, value) cleaned_dict.
                  if \<not> contains d key
                  then AList.update key (remove_keys_with d value) cleaned_dict
                  else cleaned_dict) items [])"
| "remove_keys_with d (JList xs) = JList (map (remove_keys_with d) xs)"
| "remove_keys_with d v = v"

definition remove_keys_with_arrow :: "json \<Rightarrow> json" where
  "remove_keys_with_arrow json_data = remove_keys_with arrow json_data"

text \<open>
  What \<^verbatim>\<open>open\<close> and \<^verbatim>\<open>json.load\<close> give for a path: a failure to open or decode the
  file (any exception but \<^verbatim>\<open>JSONDecodeError\<close>), a \<^verbatim>\<open>JSONDecodeError\<close>, or the document.
\<close>

datatype file_content = Unreadable | InvalidJson | Document json

text \<open>
  \<^verbatim>\<open>process_json_file\<close> reads and writes files and asks the operator. What the file
  system and the operator answer is its environment: whether the input exists, whether
  the backup copy can be written, what the operator types when asked to go on without a
  backup, what reading the input gives, and whether the output can be written.
\<close>

datatype environment =
  Environment
    (input_exists: bool)
    (backup_succeeds: bool)
    (operator_answer: pystr)
    (input_content: file_content)
    (write_succeeds: bool)

datatype filter_message =
    InputMissing pystr
  | BackedUp pystr
  | BackupFailed
  | ReadDone pystr
  | JsonInvalid
  | ReadFailed
  | Processing
  | Written pystr
  | WriteFailed

text \<open>
  \<^verbatim>\<open>confirm.lower() != 'y'\<close>: the only strings whose lower case is \<^verbatim>\<open>"y"\<close> are \<^verbatim>\<open>"y"\<close>
  and \<^verbatim>\<open>"Y"\<close>.
\<close>

definition lower_is_y :: "pystr \<Rightarrow> bool" where
  "lower_is_y confirm \<longleftrightarrow> confirm = str ''y'' \<or> confirm = str ''Y''"

text \<open>
  The function returns its boolean, what it printed and, when it wrote the output, the
  value handed to \<^verbatim>\<open>json.dump\<close>. The name of the backup file (it holds the time) is
  not modelled, and \<^verbatim>\<open>input\<close> is taken to return what the operator typed.
\<close>

definition process_json_file ::
  "environment \<Rightarrow> pystr \<Rightarrow> pystr option \<Rightarrow> bool \<Rightarrow> bool \<times> filter_message list \<times> json option" where
  "process_json_file env input_file output_file_arg backup_original =
     (if \<not> input_exists env then (False, [InputMissing input_file], None)
      else
        let output_file = (case output_file_arg of None \<Rightarrow> input_file | Some f \<Rightarrow> f);
            backup =
              (if backup_original \<and> input_file = output_file
               then (if backup_succeeds env then (True, [BackedUp input_file])
                     else (lower_is_y (operator_answer env), [BackupFailed]))
               else (True, []))
        in if \<not> fst backup then (False, snd backup, None)
           else
             (case input_content env of
                InvalidJson \<Rightarrow> (False, snd backup @ [JsonInvalid], None)
              | Unreadable \<Rightarrow> (False, snd backup @ [ReadFailed], None)
              | Document data \<Rightarrow>
                  (let out = snd backup @ [ReadDone input_file, Processing];
                       cleaned_data = remove_keys_with_arrow data
                   in if write_succeeds env
                      then (True, out @ [Written output_file], Some cleaned_data)
                      else (False, out @ [WriteFailed], None))))"

section \<open>The location-coordinate extractor (\<^verbatim>\<open>tools/gen_addr_map.py\<close>)\<close>

subsection \<open>Coordinates and the location dictionary\<close>

text \<open>
  \<^verbatim>\<open>isinstance(c, int)\<close> holds of an \<^verbatim>\<open>int\<close> and of a \<^verbatim>\<open>bool\<close> (a subclass of
  \<^verbatim>\<open>int\<close>), and of nothing else that \<^verbatim>\<open>json.load\<close> returns. A coordinate that passed
  the check is a list of such values. Python's \<^verbatim>\<open>==\<close> compares them as numbers
  (\<^verbatim>\<open>True == 1\<close>), and two tuples are equal when they have the same length and equal
  elements: \<open>tuple_eq\<close>. \<^verbatim>\<open>t in ts\<close> is \<open>tuple_in\<close>.
\<close>

datatype pyint = PyInt int | PyBool bool

fun int_of :: "pyint \<Rightarrow> int" where
  "int_of (PyInt i) = i"
| "int_of (PyBool b) = (if b then 1 else 0)"

type_synonym coord = "pyint list"

definition tuple_eq :: "coord \<Rightarrow> coord \<Rightarrow> bool" where
  "tuple_eq c d \<longleftrightarrow> map int_of c = map int_of d"

definition tuple_in :: "coord \<Rightarrow> coord list \<Rightarrow> bool" where
  "tuple_in t ts \<longleftrightarrow> list_ex (tuple_eq t) ts"

text \<open>
  \<^verbatim>\<open>LocationCoordDict = Dict[str, List[List[int]]]\<close>, in insertion order. \<open>coords_at\<close>
  is the list under a path, empty when the path is absent.
\<close>

type_synonym location_coord_dict = "(pystr \<times> coord list) list"

definition coords_at :: "location_coord_dict \<Rightarrow> pystr \<Rightarrow> coord list" where
  "coords_at location_coords p = (case map_of location_coords p of None \<Rightarrow> [] | Some cs \<Rightarrow> cs)"



subsection \<open>Reading a tile\<close>

text \<open>\<^verbatim>\<open>d.get(k, default)\<close> and the truth value of a JSON value (\<^verbatim>\<open>if not tiles\<close>).\<close>

definition dict_get :: "(pystr \<times> json) list \<Rightarrow> pystr \<Rightarrow> json \<Rightarrow> json" where
  "dict_get d k dflt = (case map_of d k of None \<Rightarrow> dflt | Some v \<Rightarrow> v)"

fun truthy :: "json \<Rightarrow> bool" where
  "truthy JNull = False"
| "truthy (JBool b) = b"
| "truthy (JInt i) = (i \<noteq> 0)"
| "truthy (JFloat (Finite s m e)) = (m \<noteq> 0)"
| "truthy (JFloat f) = True"
| "truthy (JStr s) = (s \<noteq> [])"
| "truthy (JList xs) = (xs \<noteq> [])"
| "truthy (JObj items) = (items \<noteq> [])"

fun as_int :: "json \<Rightarrow> pyint option" where
  "as_int (JInt i) = Some (PyInt i)"
| "as_int (JBool b) = Some (PyBool b)"
| "as_int v = None"

fun as_str :: "json \<Rightarrow> pystr option" where
  "as_str (JStr s) = Some s"
| "as_str v = None"

text \<open>
  Line 28: \<^verbatim>\<open>isinstance(coord, list)\<close>, \<^verbatim>\<open>len(coord) == 2\<close> and every element an
  \<^verbatim>\<open>int\<close>; the result is the checked coordinate. Line 34: \<^verbatim>\<open>isinstance(address, list)\<close>,
  \<^verbatim>\<open>len(address) != 0\<close> and every element a \<^verbatim>\<open>str\<close>.
\<close>

fun valid_coord :: "json \<Rightarrow> coord option" where
  "valid_coord (JList cs) = (if length cs \<noteq> 2 then None else those (map as_int cs))"
| "valid_coord v = None"

fun valid_address :: "json \<Rightarrow> pystr list option" where
  "valid_address (JList as) = (if length as = 0 then None else those (map as_str as))"
| "valid_address v = None"

subsection \<open>What the scripts print\<close>

datatype message =
    NoTilesWarning pystr
  | BadCoordWarning pystr nat json
  | InvalidJsonError pystr
  | ProcessingError pystr
  | ProcessingFile nat pystr
  | Banner
  | NoData
  | LocationLine nat pystr "coord list"
  | Saved
  | RootMissing
  | Searching
  | NotSaved
  | Statistics nat nat nat

subsection \<open>\<^verbatim>\<open>extract_location_coords_from_json\<close>\<close>

text \<open>
  Lines 44 to 50, for one \<^verbatim>\<open>full_path\<close>: the path gets an empty list when it is new,
  and \<^verbatim>\<open>coord.copy()\<close> is appended unless an equal tuple is in the list. (The lookup
  after line 46 cannot miss; the \<open>None\<close> branch is there for totality.)
\<close>

definition add_coord :: "pystr \<Rightarrow> coord \<Rightarrow> location_coord_dict \<Rightarrow> location_coord_dict" where
  "add_coord full_path coord location_coords =
     (let location_coords1 =
            (if map_of location_coords full_path = None
             then AList.update full_path [] location_coords
             else location_coords)
      in case map_of location_coords1 full_path of
           None \<Rightarrow> location_coords1
         | Some cs \<Rightarrow>
             if \<not> tuple_in coord cs
             then AList.update full_path (cs @ [coord]) location_coords1
             else location_coords1)"

text \<open>Lines 38 to 50: the loop over the levels of one address.\<close>

fun add_paths ::
  "coord \<Rightarrow> pystr list \<Rightarrow> pystr list \<Rightarrow> location_coord_dict \<Rightarrow> location_coord_dict" where
  "add_paths coord [] current_path location_coords = location_coords"
| "add_paths coord (level # rest) current_path location_coords =
     (let current_path1 = current_path @ [strip level];
          full_path = join arrow current_path1
      in add_paths coord rest current_path1 (add_coord full_path coord location_coords))"

text \<open>
  Lines 25 to 50: the loop over the tiles, \<^verbatim>\<open>tile_idx\<close> counting from 1. A tile that is
  not a \<^verbatim>\<open>dict\<close> has no \<^verbatim>\<open>get\<close>: the \<^verbatim>\<open>AttributeError\<close> leaves the loop, is caught at
  line 54 and reported, and the function returns what it has collected so far.
\<close>

fun process_tiles ::
  "pystr \<Rightarrow> nat \<Rightarrow> json list \<Rightarrow> location_coord_dict \<times> message list \<Rightarrow>
   location_coord_dict \<times> message list" where
  "process_tiles json_path tile_idx [] (location_coords, out) = (location_coords, out)"
| "process_tiles json_path tile_idx (tile # rest) (location_coords, out) =
     (case tile of
        JObj fields \<Rightarrow>
          (let coord = dict_get fields (str ''coord'') (JList []) in
           case valid_coord coord of
             None \<Rightarrow>
               process_tiles json_path (tile_idx + 1) rest
                 (location_coords, out @ [BadCoordWarning json_path tile_idx coord])
           | Some c \<Rightarrow>
               (let address = dict_get fields (str ''address'') (JList []) in
                case valid_address address of
                  None \<Rightarrow> process_tiles json_path (tile_idx + 1) rest (location_coords, out)
                | Some a \<Rightarrow>
                    process_tiles json_path (tile_idx + 1) rest
                      (add_paths c a [] location_coords, out)))
      | _ \<Rightarrow> (location_coords, out @ [ProcessingError json_path]))"

text \<open>
  The function, on what reading \<^verbatim>\<open>json_path\<close> gives, returning the mapping and what it
  printed. \<^verbatim>\<open>data.get\<close> raises on a
  document that is not a \<^verbatim>\<open>dict\<close>; a \<^verbatim>\<open>tiles\<close> value that is true and not a list is an
  integer, a float or \<^verbatim>\<open>True\<close> (\<^verbatim>\<open>enumerate\<close> raises \<^verbatim>\<open>TypeError\<close>) or a string or
  \<^verbatim>\<open>dict\<close> (its first element is a \<^verbatim>\<open>str\<close>, which has no \<^verbatim>\<open>get\<close>): the exception is
  reported and the empty mapping returned.
\<close>

definition extract_location_coords_from_json ::
  "pystr \<Rightarrow> file_content \<Rightarrow> location_coord_dict \<times> message list" where
  "extract_location_coords_from_json json_path file =
     (case file of
        Unreadable \<Rightarrow> ([], [ProcessingError json_path])
      | InvalidJson \<Rightarrow> ([], [InvalidJsonError json_path])
      | Document data \<Rightarrow>
          (case data of
             JObj fields \<Rightarrow>
               (let tiles = dict_get fields (str ''tiles'') (JList []) in
                if \<not> truthy tiles then ([], [NoTilesWarning json_path])
                else (case tiles of
                        JList ts \<Rightarrow> process_tiles json_path 1 ts ([], [])
                      | _ \<Rightarrow> ([], [ProcessingError json_path])))
           | _ \<Rightarrow> ([], [ProcessingError json_path])))"

subsection \<open>\<^verbatim>\<open>merge_all_location_coords\<close>\<close>

text \<open>
  Lines 86 to 90: the loop over the coordinates of one path of one file. The state is
  the list \<^verbatim>\<open>all_location_coords[location_path]\<close> and \<^verbatim>\<open>existing_coords\<close>.
\<close>

fun merge_coords :: "coord list \<Rightarrow> coord list \<times> coord list \<Rightarrow> coord list \<times> coord list" where
  "merge_coords [] (all_coords, existing_coords) = (all_coords, existing_coords)"
| "merge_coords (coord # rest) (all_coords, existing_coords) =
     (if \<not> tuple_in coord existing_coords
      then merge_coords rest (all_coords @ [coord], existing_coords @ [coord])
      else merge_coords rest (all_coords, existing_coords))"

text \<open>Lines 81 to 90, for one item of \<^verbatim>\<open>file_location_coords\<close>.\<close>

definition merge_path ::
  "location_coord_dict \<Rightarrow> pystr \<Rightarrow> coord list \<Rightarrow> location_coord_dict" where
  "merge_path all_location_coords location_path coords =
     (let all1 =
            (if map_of all_location_coords location_path = None
             then AList.update location_path [] all_location_coords
             else all_location_coords)
      in case map_of all1 location_path of
           None \<Rightarrow> all1
         | Some cs \<Rightarrow> AList.update location_path (fst (merge_coords coords (cs, cs))) all1)"

text \<open>Lines 80 to 90: the loop over \<^verbatim>\<open>file_location_coords.items()\<close>.\<close>

fun merge_file :: "location_coord_dict \<Rightarrow> location_coord_dict \<Rightarrow> location_coord_dict" where
  "merge_file all_location_coords [] = all_location_coords"
| "merge_file all_location_coords ((location_path, coords) # rest) =
     merge_file (merge_path all_location_coords location_path coords) rest"

text \<open>
  \<^verbatim>\<open>os.walk(root_dir)\<close> is the list of the directories it yields, in its order, each
  with its \<^verbatim>\<open>root\<close> and its files (name and what reading the file gives).
  \<^verbatim>\<open>os.path.join\<close> is that of \<^verbatim>\<open>posixpath\<close>; 47 is the slash.
\<close>

type_synonym directory = "pystr \<times> (pystr \<times> file_content) list"

definition path_join :: "pystr \<Rightarrow> pystr \<Rightarrow> pystr" where
  "path_join a b =
     (if prefix [47] b then b
      else if a = [] \<or> suffix [47] a then a @ b
      else a @ [47] @ b)"

text \<open>Lines 70 to 90: the loop over the files of one directory.\<close>

fun merge_files ::
  "pystr \<Rightarrow> (pystr \<times> file_content) list \<Rightarrow> location_coord_dict \<times> nat \<times> message list \<Rightarrow>
   location_coord_dict \<times> nat \<times> message list" where
  "merge_files root [] st = st"
| "merge_files root ((filename, file) # rest) (all_location_coords, processed_files, out) =
     (if endswith filename (str ''.json'')
      then
        (let json_path = path_join root filename;
             processed_files1 = processed_files + 1;
             (file_location_coords, printed) = extract_location_coords_from_json json_path file
         in merge_files root rest
              (merge_file all_location_coords file_location_coords, processed_files1,
               out @ [ProcessingFile processed_files1 json_path] @ printed))
      else merge_files root rest (all_location_coords, processed_files, out))"

text \<open>Lines 69 to 90: the loop over the directories.\<close>

fun merge_dirs ::
  "directory list \<Rightarrow> location_coord_dict \<times> nat \<times> message list \<Rightarrow>
   location_coord_dict \<times> nat \<times> message list" where
  "merge_dirs [] st = st"
| "merge_dirs ((root, files) # rest) st = merge_dirs rest (merge_files root files st)"

definition merge_all_location_coords ::
  "directory list \<Rightarrow> (location_coord_dict \<times> nat) \<times> message list" where
  "merge_all_location_coords walk =
     (case merge_dirs walk ([], 0, []) of
        (all_location_coords, processed_files, out) \<Rightarrow>
          ((all_location_coords, processed_files), out))"

subsection \<open>Printing and saving\<close>

text \<open>The sort key of lines 109 and 129: \<^verbatim>\<open>(len(x.split('->')), x)\<close>.\<close>

definition path_key :: "pystr \<Rightarrow> nat \<times> pystr" where
  "path_key x = (length (split x arrow), x)"

text \<open>\<^verbatim>\<open>dict(items)\<close>: the items are stored one after the other.\<close>

definition dict_of_items :: "(pystr \<times> 'v) list \<Rightarrow> (pystr \<times> 'v) list" where
  "dict_of_items items = fold (\<lambda>(k, v) d. AList.update k v d) items []"

text \<open>
  \<^verbatim>\<open>print_location_coords\<close>: what it prints, one \<open>LocationLine\<close> for the two lines of
  each path. \<^verbatim>\<open>sorted\<close> is stable, as \<^const>\<open>sort_key\<close> is.
\<close>

definition sorted_paths :: "location_coord_dict \<Rightarrow> pystr list" where
  "sorted_paths location_coords = sort_key path_key (map fst location_coords)"

definition print_location_coords :: "location_coord_dict \<Rightarrow> message list" where
  "print_location_coords location_coords =
     (if location_coords = [] then [Banner, NoData]
      else Banner #
        map (\<lambda>(i, location_path). LocationLine i location_path (coords_at location_coords location_path))
          (zip [1 ..< Suc (length (sorted_paths location_coords))] (sorted_paths location_coords)))"

text \<open>
  \<^verbatim>\<open>save_location_coords_to_json\<close>: the dictionary handed to \<^verbatim>\<open>json.dump\<close>, which
  writes its entries in the dictionary's order, and what is printed.
\<close>

definition save_location_coords_to_json ::
  "location_coord_dict \<Rightarrow> location_coord_dict \<times> message list" where
  "save_location_coords_to_json location_coords =
     (dict_of_items (sort_key (\<lambda>x. path_key (fst x)) location_coords), [Saved])"

text \<open>
  The main block: its exit status, the file written (none when nothing was extracted)
  and everything printed. The walk is \<open>None\<close> when the root directory does not exist.
  The statistics are the number of files, of paths, and of coordinates over all paths.
\<close>

definition main :: "directory list option \<Rightarrow> nat \<times> location_coord_dict option \<times> message list" where
  "main root_directory =
     (case root_directory of
        None \<Rightarrow> (1, None, [RootMissing])
      | Some walk \<Rightarrow>
          (case merge_all_location_coords walk of
             ((all_location_coords, processed_files), out) \<Rightarrow>
               (let out1 = [Searching] @ out @ print_location_coords all_location_coords;
                    saved =
                      (if all_location_coords \<noteq> []
                       then (case save_location_coords_to_json all_location_coords of
                               (written, out2) \<Rightarrow> (Some written, out2))
                       else (None, [NotSaved]));
                    total_locations = length all_location_coords;
                    total_coords = sum_list (map (\<lambda>(p, coords). length coords) all_location_coords)
                in (0, fst saved,
                    out1 @ snd saved @
                    [Statistics processed_files total_locations total_coords]))))"

section \<open>Notions used to state the properties\<close>

text \<open>
  These are not functions of the scripts. They name what the properties speak about:
  appending a coordinate unless an equal one is there, the location paths of an address,
  the tiles that the loop of the extractor reads, the \<^verbatim>\<open>.json\<close> files of a walk, and
  the invariant of the dictionaries the extractor builds.
\<close>

text \<open>Append \<open>c\<close> unless a coordinate that Python finds equal is in the list.\<close>

definition append_unique :: "coord \<Rightarrow> coord list \<Rightarrow> coord list" where
  "append_unique c cs = (if tuple_in c cs then cs else cs @ [c])"

text \<open>
  The location paths of an address: for each \<open>k\<close> from 1 to its length, the first \<open>k\<close>
  levels, stripped, joined by the delimiter.
\<close>

definition prefix_paths :: "pystr list \<Rightarrow> pystr list" where
  "prefix_paths a = map (\<lambda>k. join arrow (map strip (take k a))) [1 ..< Suc (length a)]"


text \<open>
  A tile that passes both checks, as its coordinate and its address. The loop reads the
  tiles up to the first one that is not a \<^verbatim>\<open>dict\<close>; \<open>read_tiles\<close> are the valid ones
  among them, in order. \<open>tiles_of\<close> is the list the loop runs over, empty when there is
  none.
\<close>

fun is_obj :: "json \<Rightarrow> bool" where
  "is_obj (JObj fields) = True"
| "is_obj v = False"

fun tile_parts :: "json \<Rightarrow> (coord \<times> pystr list) option" where
  "tile_parts (JObj fields) =
     (case valid_coord (dict_get fields (str ''coord'') (JList [])) of
        None \<Rightarrow> None
      | Some c \<Rightarrow>
          (case valid_address (dict_get fields (str ''address'') (JList [])) of
             None \<Rightarrow> None
           | Some a \<Rightarrow> Some (c, a)))"
| "tile_parts v = None"

definition read_tiles :: "json list \<Rightarrow> (coord \<times> pystr list) list" where
  "read_tiles ts = List.map_filter tile_parts (takeWhile is_obj ts)"

fun tiles_of :: "file_content \<Rightarrow> json list" where
  "tiles_of (Document (JObj fields)) =
     (case dict_get fields (str ''tiles'') (JList []) of JList ts \<Rightarrow> ts | _ \<Rightarrow> [])"
| "tiles_of file = []"

definition file_tiles :: "file_content \<Rightarrow> (coord \<times> pystr list) list" where
  "file_tiles file = read_tiles (tiles_of file)"

text \<open>What one valid tile does to the dictionary (lines 38 to 50).\<close>

definition add_tile :: "coord \<times> pystr list \<Rightarrow> location_coord_dict \<Rightarrow> location_coord_dict" where
  "add_tile t location_coords = add_paths (fst t) (snd t) [] location_coords"

text \<open>
  The invariant: no path twice, and under each path a non-empty list of coordinates no
  two of which Python finds equal.
\<close>

definition wf_dict :: "location_coord_dict \<Rightarrow> bool" where
  "wf_dict location_coords \<longleftrightarrow>
     distinct (map fst location_coords) \<and>
     list_all (\<lambda>(p, cs). cs \<noteq> [] \<and> distinct (map (map int_of) cs)) location_coords"

text \<open>
  The files a walk visits whose name ends in \<^verbatim>\<open>.json\<close>, in the order of the visit, each
  with its path; the mapping extracted from one of them; and the merge of a list of
  mappings, in the list's order, from the empty dictionary (lines 80 to 90, for each).
\<close>

definition dir_json_files ::
  "pystr \<Rightarrow> (pystr \<times> file_content) list \<Rightarrow> (pystr \<times> file_content) list" where
  "dir_json_files root files =
     map (\<lambda>(filename, file). (path_join root filename, file))
       (filter (\<lambda>(filename, file). endswith filename (str ''.json'')) files)"

definition json_files :: "directory list \<Rightarrow> (pystr \<times> file_content) list" where
  "json_files walk = concat (map (\<lambda>(root, files). dir_json_files root files) walk)"

definition file_mapping :: "pystr \<times> file_content \<Rightarrow> location_coord_dict" where
  "file_mapping f = fst (extract_location_coords_from_json (fst f) (snd f))"

definition merge_mappings :: "location_coord_dict list \<Rightarrow> location_coord_dict" where
  "merge_mappings ds = fold (\<lambda>d all_location_coords. merge_file all_location_coords d) ds []"

section \<open>Facts about strings and dictionaries\<close>

lemma contains_iff_sublist: "contains sub s \<longleftrightarrow> sublist sub s"
  by (induction s) (auto simp: sublist_Cons_right)

lemma contains_iff: "contains sub s \<longleftrightarrow> (\<exists>pre post. s = pre @ sub @ post)"
  by (simp add: contains_iff_sublist sublist_def)

lemma update_fresh: "k \<notin> fst ` set al \<Longrightarrow> AList.update k v al = al @ [(k, v)]"
  by (induction al) auto

lemma set_update_subset: "set (AList.update k v al) \<subseteq> insert (k, v) (set al)"
  by (induction al) auto

section \<open>The key filter: what it removes and what it keeps\<close>

lemma fold_keep_distinct:
  "distinct (map fst items) \<Longrightarrow> fst ` set acc \<inter> fst ` set items = {} \<Longrightarrow>
   fold (\<lambda>(key, value) cleaned_dict.
           if \<not> contains d key then AList.update key (f value) cleaned_dict else cleaned_dict)
     items acc =
   acc @ map (\<lambda>(k, v). (k, f v)) (filter (\<lambda>(k, v). \<not> contains d k) items)"
proof (induction items arbitrary: acc)
  case Nil
  then show ?case by simp
next
  case (Cons kv items)
  obtain k v where kv: "kv = (k, v)" by (cases kv)
  show ?case
  proof (cases "contains d k")
    case True
    with Cons kv show ?thesis by auto
  next
    case False
    from Cons.prems kv have fresh: "k \<notin> fst ` set acc" by auto
    have disj: "fst ` set (acc @ [(k, f v)]) \<inter> fst ` set items = {}"
      using Cons.prems kv by auto
    from Cons.prems have "distinct (map fst items)" by simp
    from Cons.IH [OF this disj] False kv fresh show ?thesis
      by (simp add: update_fresh)
  qed
qed

lemma fold_keep_keys_distinct:
  "distinct (map fst acc) \<Longrightarrow>
   distinct (map fst (fold (\<lambda>(key, value) cleaned_dict.
           if \<not> contains d key then AList.update key (f value) cleaned_dict else cleaned_dict)
     items acc))"
  by (induction items arbitrary: acc) (auto simp: distinct_update split: prod.splits)

lemma fold_keep_entries:
  "(k, w) \<in> set (fold (\<lambda>(key, value) cleaned_dict.
           if \<not> contains d key then AList.update key (f value) cleaned_dict else cleaned_dict)
     items acc) \<Longrightarrow>
   (k, w) \<in> set acc \<or> (\<exists>v. (k, v) \<in> set items \<and> \<not> contains d k \<and> w = f v)"
proof (induction items arbitrary: acc)
  case Nil
  then show ?case by simp
next
  case (Cons kv items)
  obtain k' v' where kv: "kv = (k', v')" by (cases kv)
  show ?case
  proof (cases "contains d k'")
    case True
    with Cons.prems kv have "(k, w) \<in> set (fold (\<lambda>(key, value) cleaned_dict.
           if \<not> contains d key then AList.update key (f value) cleaned_dict else cleaned_dict)
     items acc)" by simp
    from Cons.IH [OF this] show ?thesis by auto
  next
    case False
    with Cons.prems kv have "(k, w) \<in> set (fold (\<lambda>(key, value) cleaned_dict.
           if \<not> contains d key then AList.update key (f value) cleaned_dict else cleaned_dict)
     items (AList.update k' (f v') acc))" by simp
    from Cons.IH [OF this] have
      "(k, w) \<in> set (AList.update k' (f v') acc) \<or>
       (\<exists>v. (k, v) \<in> set items \<and> \<not> contains d k \<and> w = f v)" .
    with set_update_subset [of k' "f v'" acc] False kv show ?thesis by auto
  qed
qed

lemma remove_keys_with_obj:
  "distinct (map fst items) \<Longrightarrow>
   remove_keys_with d (JObj items) =
   JObj (map (\<lambda>(k, v). (k, remove_keys_with d v)) (filter (\<lambda>(k, v). \<not> contains d k) items))"
  using fold_keep_distinct [of items "[]" d "remove_keys_with d"] by simp

lemma remove_keys_with_wf: "wf_json (remove_keys_with d v)"
proof (induction d v rule: remove_keys_with.induct)
  case (1 d items)
  have "wf_json w" if "(k, w) \<in> set (fold (\<lambda>(key, value) cleaned_dict.
           if \<not> contains d key then AList.update key (remove_keys_with d value) cleaned_dict else cleaned_dict)
     items [])" for k w
    using fold_keep_entries [OF that] 1 by auto
  then show ?case
    by (auto simp: fold_keep_keys_distinct)
qed auto

lemma remove_keys_with_keys: "k \<in> all_keys (remove_keys_with d v) \<Longrightarrow> \<not> contains d k"
proof (induction d v arbitrary: k rule: remove_keys_with.induct)
  case (1 d items)
  let ?r = "fold (\<lambda>(key, value) cleaned_dict.
           if \<not> contains d key then AList.update key (remove_keys_with d value) cleaned_dict else cleaned_dict)
     items []"
  from "1.prems" have "k \<in> fst ` set ?r \<or> (\<exists>(k', w) \<in> set ?r. k \<in> all_keys w)"
    by auto
  then show ?case
  proof
    assume "k \<in> fst ` set ?r"
    then obtain w where "(k, w) \<in> set ?r" by auto
    from fold_keep_entries [OF this] show ?thesis by auto
  next
    assume "\<exists>(k', w) \<in> set ?r. k \<in> all_keys w"
    then obtain k' w where in_r: "(k', w) \<in> set ?r" and k: "k \<in> all_keys w" by auto
    from fold_keep_entries [OF in_r] obtain v where
      "(k', v) \<in> set items" "\<not> contains d k'" "w = remove_keys_with d v" by auto
    with "1.IH" k show ?thesis by blast
  qed
qed auto

lemma all_keys_obj_key: "(k, v) \<in> set items \<Longrightarrow> k \<in> all_keys (JObj items)"
  by (simp add: image_iff) (metis fst_conv)

lemma all_keys_obj_sub: "(k, v) \<in> set items \<Longrightarrow> k' \<in> all_keys v \<Longrightarrow> k' \<in> all_keys (JObj items)"
  by simp (metis case_prod_conv)

lemma remove_keys_with_id:
  "wf_json v \<Longrightarrow> \<forall>k \<in> all_keys v. \<not> contains d k \<Longrightarrow> remove_keys_with d v = v"
proof (induction d v rule: remove_keys_with.induct)
  case (1 d items)
  from "1.prems" have dist: "distinct (map fst items)" by simp
  have nokey: "\<not> contains d k" if "(k, v) \<in> set items" for k v
    using "1.prems"(2) all_keys_obj_key [OF that] by blast
  have nosub: "\<forall>k' \<in> all_keys v. \<not> contains d k'" if "(k, v) \<in> set items" for k v
    using "1.prems"(2) all_keys_obj_sub [OF that] by blast
  have wfsub: "wf_json v" if "(k, v) \<in> set items" for k v
    using "1.prems"(1) that by auto
  have keep: "filter (\<lambda>(k, v). \<not> contains d k) items = items"
    using nokey by (auto simp: filter_id_conv)
  have same: "map (\<lambda>(k, v). (k, remove_keys_with d v)) items = map (\<lambda>kv. kv) items"
  proof (rule map_cong [OF refl])
    fix kv assume kv: "kv \<in> set items"
    obtain k v where eq: "kv = (k, v)" by (cases kv)
    from kv eq have mem: "(k, v) \<in> set items" by simp
    have "remove_keys_with d v = v"
      using "1.IH" [OF kv eq [symmetric] nokey [OF mem] wfsub [OF mem] nosub [OF mem]] .
    then show "(case kv of (k, v) \<Rightarrow> (k, remove_keys_with d v)) = kv"
      using eq by simp
  qed
  show ?case
    unfolding remove_keys_with_obj [OF dist] keep same by simp
next
  case (2 d xs)
  then show ?case by (auto intro: map_idI)
qed auto

lemma remove_keys_with_idem: "remove_keys_with d (remove_keys_with d v) = remove_keys_with d v"
  by (rule remove_keys_with_id) (auto simp: remove_keys_with_wf dest: remove_keys_with_keys)

text \<open>
  Claim C4. For every JSON value and every forbidden substring \<open>d\<close> (the script's is
  \<^const>\<open>arrow\<close>), the key filter keeps the shape of the value and removes exactly the
  object entries whose key contains \<open>d\<close>, each with its whole subtree, at every depth:
  an object (whose keys are distinct, as those of a \<^verbatim>\<open>dict\<close> are) becomes the object of
  its entries whose key does not contain \<open>d\<close>, in their order, each value filtered in
  turn; a list becomes the list of its filtered elements, none removed; a scalar is
  returned as it is; no key of the result, at any depth, contains \<open>d\<close>; an object all of
  whose keys contain \<open>d\<close> becomes the empty object, and stays in its parent, object or
  list. A key contains \<open>d\<close> when \<open>d\<close> is a contiguous part of it.
\<close>

theorem remove_keys_with_filters:
  "(distinct (map fst items) \<longrightarrow>
      remove_keys_with d (JObj items) =
        JObj (map (\<lambda>(k, v). (k, remove_keys_with d v))
               (filter (\<lambda>(k, v). \<not> contains d k) items)))
   \<and> remove_keys_with d (JList xs) = JList (map (remove_keys_with d) xs)
   \<and> length (map (remove_keys_with d) xs) = length xs
   \<and> remove_keys_with d JNull = JNull
   \<and> remove_keys_with d (JBool b) = JBool b
   \<and> remove_keys_with d (JInt i) = JInt i
   \<and> remove_keys_with d (JFloat f) = JFloat f
   \<and> remove_keys_with d (JStr s) = JStr s
   \<and> (\<forall>k \<in> all_keys (remove_keys_with d v). \<not> contains d k)
   \<and> ((\<forall>k \<in> fst ` set items. contains d k) \<longrightarrow>
        remove_keys_with d (JObj items) = JObj []
        \<and> remove_keys_with d (JList [JObj items]) = JList [JObj []]
        \<and> (\<not> contains d p \<longrightarrow>
             remove_keys_with d (JObj [(p, JObj items)]) = JObj [(p, JObj [])]))
   \<and> (contains d key \<longleftrightarrow> (\<exists>pre post. key = pre @ d @ post))
   \<and> remove_keys_with_arrow v = remove_keys_with arrow v"
proof -
  have all_match: "remove_keys_with d (JObj items) = JObj []"
    if "\<forall>k \<in> fst ` set items. contains d k"
  proof -
    have "fold (\<lambda>(key, value) cleaned_dict.
             if \<not> contains d key
             then AList.update key (remove_keys_with d value) cleaned_dict
             else cleaned_dict) items acc = acc" for acc
      using that by (induction items arbitrary: acc) auto
    then show ?thesis by simp
  qed
  have keys: "\<forall>k \<in> all_keys (remove_keys_with d v). \<not> contains d k"
    using remove_keys_with_keys by blast
  show ?thesis
    using all_match keys
    by (simp add: remove_keys_with_obj contains_iff remove_keys_with_arrow_def del: remove_keys_with.simps(1))
qed

theorem remove_keys_with_filters_witness:
  "remove_keys_with_arrow
     (JObj [(str ''a'', JInt 1),
            (str ''a->b'', JList [JInt 2]),
            (str ''c'', JList [JObj [(str ''x->y'', JNull)], JStr (str ''->'')])]) =
   JObj [(str ''a'', JInt 1), (str ''c'', JList [JObj [], JStr (str ''->'')])]"
proof -
  let ?items = "[(str ''a'', JInt 1),
            (str ''a->b'', JList [JInt 2]),
            (str ''c'', JList [JObj [(str ''x->y'', JNull)], JStr (str ''->'')])]"
  let ?inner = "[(str ''x->y'', JNull)]"
  have d: "distinct (map fst ?items)"
    by (simp add: str_def)
  have m: "\<forall>k \<in> fst ` set ?inner. contains arrow k"
    by (simp add: str_def arrow_def)
  from remove_keys_with_filters [where items = ?items and d = arrow and v = "JObj ?items"] d
  have top: "remove_keys_with arrow (JObj ?items) =
        JObj (map (\<lambda>(k, v). (k, remove_keys_with arrow v))
               (filter (\<lambda>(k, v). \<not> contains arrow k) ?items))"
    and arr: "remove_keys_with_arrow (JObj ?items) = remove_keys_with arrow (JObj ?items)"
    by blast+
  from remove_keys_with_filters [where items = ?inner and d = arrow] m
  have inner: "remove_keys_with arrow (JObj ?inner) = JObj []"
    by blast
  have flt: "filter (\<lambda>(k, v). \<not> contains arrow k) ?items =
      [(str ''a'', JInt 1), (str ''c'', JList [JObj ?inner, JStr (str ''->'')])]"
    by (simp add: str_def arrow_def)
  show ?thesis
    unfolding arr top flt using inner by simp
qed

text \<open>
  Claim C5. Filtering twice with the same substring gives what filtering once gives,
  for every JSON value; in particular for the script's function.
\<close>

theorem remove_keys_with_arrow_idempotent:
  "remove_keys_with d (remove_keys_with d v) = remove_keys_with d v
   \<and> remove_keys_with_arrow (remove_keys_with_arrow v) = remove_keys_with_arrow v"
  by (simp add: remove_keys_with_idem remove_keys_with_arrow_def)

theorem remove_keys_with_arrow_idempotent_witness:
  "remove_keys_with_arrow
     (remove_keys_with_arrow (JObj [(str ''a'', JInt 1), (str ''a->b'', JList [JInt 2])])) =
   JObj [(str ''a'', JInt 1)]"
proof -
  have "remove_keys_with_arrow (JObj [(str ''a'', JInt 1), (str ''a->b'', JList [JInt 2])]) =
      JObj [(str ''a'', JInt 1)]"
    by (simp add: remove_keys_with_arrow_def str_def arrow_def)
  with remove_keys_with_arrow_idempotent
         [where v = "JObj [(str ''a'', JInt 1), (str ''a->b'', JList [JInt 2])]"]
  show ?thesis by simp
qed
section \<open>The extractor: what a dictionary holds after each loop\<close>

subsection \<open>Appending a coordinate once\<close>

lemma tuple_in_iff: "tuple_in c cs \<longleftrightarrow> map int_of c \<in> map int_of ` set cs"
  by (auto simp: tuple_in_def tuple_eq_def list_ex_iff)


lemma distinct_append_unique:
  "distinct (map (map int_of) cs) \<Longrightarrow> distinct (map (map int_of) (append_unique c cs))"
  by (auto simp: append_unique_def tuple_in_iff)


lemma append_unique_nonempty: "append_unique c cs \<noteq> []"
  by (auto simp: append_unique_def tuple_in_def)

lemma append_unique_idem: "append_unique c (append_unique c cs) = append_unique c cs"
  by (auto simp: append_unique_def tuple_in_iff)

subsection \<open>One path\<close>

lemma map_of_add_coord:
  "map_of (add_coord p c lc) q =
     (if q = p then Some (append_unique c (coords_at lc p)) else map_of lc q)"
  by (auto simp: add_coord_def Let_def coords_at_def append_unique_def update_conv' tuple_in_def
           split: option.splits)

lemma distinct_add_coord:
  "distinct (map fst lc) \<Longrightarrow> distinct (map fst (add_coord p c lc))"
  by (auto simp: add_coord_def Let_def distinct_update split: option.splits)

subsection \<open>The paths of one address\<close>

lemma map_of_add_paths:
  "map_of (add_paths c ls cur lc) q =
     (if q \<in> set (map (\<lambda>k. join arrow (cur @ map strip (take k ls))) [1 ..< Suc (length ls)])
      then Some (append_unique c (coords_at lc q)) else map_of lc q)"
proof (induction ls arbitrary: cur lc)
  case Nil
  then show ?case by simp
next
  case (Cons l ls)
  let ?p = "join arrow (cur @ [strip l])"
  have idx: "[1 ..< Suc (length (l # ls))] = 1 # map Suc [1 ..< Suc (length ls)]"
    by (simp add: upt_conv_Cons map_Suc_upt del: upt_Suc)
  have paths: "set (map (\<lambda>k. join arrow (cur @ map strip (take k (l # ls)))) [1 ..< Suc (length (l # ls))])
      = insert ?p (set (map (\<lambda>k. join arrow ((cur @ [strip l]) @ map strip (take k ls))) [1 ..< Suc (length ls)]))"
    unfolding idx by (simp add: comp_def del: upt_Suc)
  have at: "coords_at (add_coord ?p c lc) q' =
      (if q' = ?p then append_unique c (coords_at lc ?p) else coords_at lc q')" for q'
    by (simp add: coords_at_def map_of_add_coord)
  show ?case
    unfolding paths
    by (simp add: Let_def Cons.IH at map_of_add_coord append_unique_idem del: upt_Suc set_map)
qed

lemma map_of_add_tile:
  "map_of (add_tile (c, a) lc) q =
     (if q \<in> set (prefix_paths a) then Some (append_unique c (coords_at lc q)) else map_of lc q)"
  unfolding add_tile_def prefix_paths_def using map_of_add_paths [of c a "[]" lc q] by simp


lemma distinct_add_paths:
  "distinct (map fst lc) \<Longrightarrow> distinct (map fst (add_paths c ls cur lc))"
  by (induction ls arbitrary: cur lc) (auto simp: Let_def distinct_add_coord)

subsection \<open>The loop over the tiles is a fold over the tiles read\<close>

lemma process_tiles_fold:
  "fst (process_tiles jp idx ts (lc, out)) = fold add_tile (read_tiles ts) lc"
proof (induction ts arbitrary: idx lc out)
  case Nil
  then show ?case by (simp add: read_tiles_def map_filter_simps)
next
  case (Cons t ts)
  show ?case
  proof (cases t)
    case (JObj fields)
    then show ?thesis
      using Cons.IH
      by (auto simp: read_tiles_def map_filter_simps Let_def add_tile_def split: option.splits)
  qed (simp_all add: read_tiles_def map_filter_simps)
qed


subsection \<open>The invariant of the dictionaries\<close>

lemma wf_dict_iff:
  "wf_dict lc \<longleftrightarrow>
     distinct (map fst lc) \<and>
     (\<forall>q cs. map_of lc q = Some cs \<longrightarrow> cs \<noteq> [] \<and> distinct (map (map int_of) cs))"
proof -
  have "distinct (map fst lc) \<Longrightarrow>
      (\<forall>x \<in> set lc. case x of (p, cs) \<Rightarrow> cs \<noteq> [] \<and> distinct (map (map int_of) cs)) \<longleftrightarrow>
      (\<forall>q cs. map_of lc q = Some cs \<longrightarrow> cs \<noteq> [] \<and> distinct (map (map int_of) cs))"
    by (auto dest: map_of_SomeD) 
  then show ?thesis
    by (auto simp: wf_dict_def list_all_iff)
qed

lemma wf_dict_Nil: "wf_dict []"
  by (simp add: wf_dict_def)


lemma keys_map_of: "fst ` set lc = dom (map_of lc)"
  by (simp add: dom_map_of_conv_image_fst)

subsection \<open>One tile\<close>

lemma keys_add_tile: "fst ` set (add_tile (c, a) lc) = fst ` set lc \<union> set (prefix_paths a)"
  unfolding keys_map_of by (auto simp: dom_def map_of_add_tile)

lemma distinct_add_tile: "distinct (map fst lc) \<Longrightarrow> distinct (map fst (add_tile t lc))"
  by (simp add: add_tile_def distinct_add_paths)

lemma wf_dict_add_tile: "wf_dict lc \<Longrightarrow> wf_dict (add_tile (c, a) lc)"
  unfolding wf_dict_iff
  by (auto simp: distinct_add_tile map_of_add_tile append_unique_nonempty
      intro!: distinct_append_unique simp: coords_at_def split: if_splits option.splits)

subsection \<open>The tiles of a file\<close>

lemma keys_fold_add_tile:
  "fst ` set (fold add_tile ts lc) = fst ` set lc \<union> (\<Union>(c, a) \<in> set ts. set (prefix_paths a))"
proof (induction ts arbitrary: lc)
  case Nil
  then show ?case by simp
next
  case (Cons t ts)
  obtain c a where t: "t = (c, a)" by (cases t)
  show ?case
    unfolding t by (simp add: Cons.IH keys_add_tile Un_assoc)
qed

lemma wf_dict_fold_add_tile: "wf_dict lc \<Longrightarrow> wf_dict (fold add_tile ts lc)"
  by (induction ts arbitrary: lc) (auto simp: wf_dict_add_tile)



subsection \<open>Extraction\<close>

lemma extract_fold:
  "fst (extract_location_coords_from_json jp file) = fold add_tile (file_tiles file) []"
proof (cases "file")
  case (Document data)
  show ?thesis
  proof (cases data)
    case (JObj fields)
    show ?thesis
    proof (cases "dict_get fields (str ''tiles'') (JList [])")
      case (JList ts)
      show ?thesis
      proof (cases "ts = []")
        case True
        with Document JObj JList show ?thesis
          by (simp add: extract_location_coords_from_json_def file_tiles_def read_tiles_def
                map_filter_simps)
      next
        case False
        with Document JObj JList
        have "extract_location_coords_from_json jp file = process_tiles jp 1 ts ([], [])"
          by (simp add: extract_location_coords_from_json_def del: process_tiles.simps)
        with Document JObj JList show ?thesis
          by (simp add: process_tiles_fold file_tiles_def del: process_tiles.simps)
      qed
    qed (use Document JObj in \<open>simp_all add: extract_location_coords_from_json_def
           file_tiles_def read_tiles_def map_filter_simps Let_def\<close>)
  qed (use Document in \<open>simp_all add: extract_location_coords_from_json_def
         file_tiles_def read_tiles_def map_filter_simps\<close>)
qed (simp_all add: extract_location_coords_from_json_def file_tiles_def read_tiles_def
       map_filter_simps)

lemma wf_dict_extract: "wf_dict (fst (extract_location_coords_from_json jp file))"
  by (simp add: extract_fold wf_dict_fold_add_tile wf_dict_Nil)

subsection \<open>Merging one path\<close>

lemma merge_coords_fold:
  "merge_coords coords (cs, cs) = (fold append_unique coords cs, fold append_unique coords cs)"
  by (induction coords arbitrary: cs) (auto simp: append_unique_def)


lemma distinct_fold_append_unique:
  "distinct (map (map int_of) cs) \<Longrightarrow> distinct (map (map int_of) (fold append_unique coords cs))"
  by (induction coords arbitrary: cs) (auto simp: distinct_append_unique)


lemma fold_append_unique_nonempty:
  "cs \<noteq> [] \<or> coords \<noteq> [] \<Longrightarrow> fold append_unique coords cs \<noteq> []"
proof (induction coords arbitrary: cs)
  case Nil
  then show ?case by simp
next
  case (Cons c coords)
  from Cons.IH [of "append_unique c cs"] show ?case
    by (simp add: append_unique_nonempty)
qed

lemma map_of_merge_path:
  "map_of (merge_path all p coords) q =
     (if q = p then Some (fold append_unique coords (coords_at all p)) else map_of all q)"
  by (auto simp: merge_path_def Let_def coords_at_def update_conv' merge_coords_fold
           split: option.splits)

lemma distinct_merge_path:
  "distinct (map fst all) \<Longrightarrow> distinct (map fst (merge_path all p coords))"
  by (auto simp: merge_path_def Let_def distinct_update split: option.splits)


lemma keys_merge_path: "fst ` set (merge_path all p coords) = insert p (fst ` set all)"
  unfolding keys_map_of by (auto simp: dom_def map_of_merge_path)

lemma wf_dict_merge_path:
  "wf_dict all \<Longrightarrow> coords \<noteq> [] \<Longrightarrow> wf_dict (merge_path all p coords)"
  unfolding wf_dict_iff
  by (auto simp: distinct_merge_path map_of_merge_path fold_append_unique_nonempty
      intro!: distinct_fold_append_unique simp: coords_at_def split: if_splits option.splits)

subsection \<open>Merging one file\<close>

lemma keys_merge_file: "fst ` set (merge_file all d) = fst ` set all \<union> fst ` set d"
  by (induction all d rule: merge_file.induct) (auto simp: keys_merge_path)

lemma wf_dict_merge_file:
  "wf_dict all \<Longrightarrow> \<forall>(p, cs) \<in> set d. cs \<noteq> [] \<Longrightarrow> wf_dict (merge_file all d)"
  by (induction all d rule: merge_file.induct) (auto simp: wf_dict_merge_path)





subsection \<open>Merging many mappings\<close>

lemma keys_fold_merge_file:
  "fst ` set (fold (\<lambda>d acc. merge_file acc d) ds all) =
     fst ` set all \<union> (\<Union>d \<in> set ds. fst ` set d)"
  by (induction ds arbitrary: all) (auto simp: keys_merge_file)



lemma wf_dict_fold_merge_file:
  "wf_dict all \<Longrightarrow> \<forall>d \<in> set ds. wf_dict d \<Longrightarrow>
   wf_dict (fold (\<lambda>d acc. merge_file acc d) ds all)"
proof (induction ds arbitrary: all)
  case Nil
  then show ?case by simp
next
  case (Cons d ds)
  from Cons.prems have "wf_dict d" by simp
  then have "\<forall>(p, cs) \<in> set d. cs \<noteq> []"
    by (auto simp: wf_dict_def list_all_iff)
  with Cons.prems have "wf_dict (merge_file all d)"
    by (simp add: wf_dict_merge_file)
  with Cons show ?case by simp
qed

subsection \<open>The walk\<close>

lemma merge_files_fold:
  "merge_files root files (all, n, out) = (all', n', out') \<Longrightarrow>
   all' = fold (\<lambda>d acc. merge_file acc d) (map file_mapping (dir_json_files root files)) all
   \<and> n' = n + length (dir_json_files root files)"
proof (induction files arbitrary: all n out)
  case Nil
  then show ?case by (simp add: dir_json_files_def)
next
  case (Cons f files)
  obtain filename content where f: "f = (filename, content)" by (cases f)
  show ?case
  proof (cases "endswith filename (str ''.json'')")
    case True
    obtain d printed where
      ex: "extract_location_coords_from_json (path_join root filename) content = (d, printed)"
      by (cases "extract_location_coords_from_json (path_join root filename) content")
    from Cons.prems f True ex have
      "merge_files root files
         (merge_file all d, n + 1,
          out @ [ProcessingFile (n + 1) (path_join root filename)] @ printed) = (all', n', out')"
      by simp
    from Cons.IH [OF this] f True ex show ?thesis
      by (simp add: dir_json_files_def file_mapping_def)
  next
    case False
    with Cons.prems f have "merge_files root files (all, n, out) = (all', n', out')"
      by simp
    from Cons.IH [OF this] f False show ?thesis
      by (simp add: dir_json_files_def)
  qed
qed

lemma merge_dirs_fold:
  "merge_dirs walk (all, n, out) = (all', n', out') \<Longrightarrow>
   all' = fold (\<lambda>d acc. merge_file acc d) (map file_mapping (json_files walk)) all
   \<and> n' = n + length (json_files walk)"
proof (induction walk arbitrary: all n out)
  case Nil
  then show ?case by (simp add: json_files_def)
next
  case (Cons dir walk)
  obtain root files where dir: "dir = (root, files)" by (cases dir)
  obtain all1 n1 out1 where
    step: "merge_files root files (all, n, out) = (all1, n1, out1)"
    by (cases "merge_files root files (all, n, out)")
  from Cons.prems dir step have "merge_dirs walk (all1, n1, out1) = (all', n', out')"
    by simp
  from Cons.IH [OF this] merge_files_fold [OF step] dir show ?case
    by (simp add: json_files_def)
qed

lemma merge_all_mappings:
  "merge_all_location_coords walk = ((merged, n), out) \<Longrightarrow>
   merged = merge_mappings (map file_mapping (json_files walk)) \<and> n = length (json_files walk)"
proof -
  assume a: "merge_all_location_coords walk = ((merged, n), out)"
  obtain all' n' out' where m: "merge_dirs walk ([], 0, []) = (all', n', out')"
    by (cases "merge_dirs walk ([], 0, [])")
  with a have "all' = merged" "n' = n"
    by (simp_all add: merge_all_location_coords_def)
  with merge_dirs_fold [OF m] show ?thesis
    by (simp add: merge_mappings_def)
qed

subsection \<open>A file's mapping, from its tiles\<close>



lemma file_mapping_fold: "file_mapping f = fold add_tile (file_tiles (snd f)) []"
  by (simp add: file_mapping_def extract_fold)

lemma wf_dict_file_mapping: "wf_dict (file_mapping f)"
  by (simp add: file_mapping_def wf_dict_extract)

lemma keys_file_mapping:
  "fst ` set (file_mapping f) = (\<Union>(c, a) \<in> set (file_tiles (snd f)). set (prefix_paths a))"
  by (simp add: file_mapping_fold keys_fold_add_tile)





subsection \<open>The merged result, from the tiles of the files\<close>

lemma wf_dict_merged: "wf_dict (merge_mappings (map file_mapping fs))"
  unfolding merge_mappings_def
  by (rule wf_dict_fold_merge_file) (auto simp: wf_dict_Nil wf_dict_file_mapping)

lemma keys_merged:
  "fst ` set (merge_mappings (map file_mapping fs)) =
     (\<Union>f \<in> set fs. \<Union>(c, a) \<in> set (file_tiles (snd f)). set (prefix_paths a))"
  unfolding merge_mappings_def keys_fold_merge_file
  by (simp add: keys_file_mapping)


section \<open>Validation, what is printed, and the sorted output\<close>





















lemma process_tiles_obj_step:
  "\<exists>lc1 out1 more. process_tiles jp idx (JObj fields # rest) (lc, out) =
      process_tiles jp (idx + 1) rest (lc1, out1) \<and> out1 = out @ more"
proof (cases "valid_coord (dict_get fields (str ''coord'') (JList []))")
  case None
  then have "process_tiles jp idx (JObj fields # rest) (lc, out) =
      process_tiles jp (idx + 1) rest
        (lc, out @ [BadCoordWarning jp idx (dict_get fields (str ''coord'') (JList []))])"
    by simp
  then show ?thesis by blast
next
  case (Some c)
  show ?thesis
  proof (cases "valid_address (dict_get fields (str ''address'') (JList []))")
    case None
    with Some have "process_tiles jp idx (JObj fields # rest) (lc, out) =
        process_tiles jp (idx + 1) rest (lc, out @ [])"
      by simp
    then show ?thesis by blast
  next
    case (Some a)
    with \<open>valid_coord (dict_get fields (str ''coord'') (JList [])) = Some c\<close>
    have "process_tiles jp idx (JObj fields # rest) (lc, out) =
        process_tiles jp (idx + 1) rest (add_paths c a [] lc, out @ [])"
      by simp
    then show ?thesis by blast
  qed
qed

lemma process_tiles_out_grows:
  "\<exists>more. snd (process_tiles jp idx ts (lc, out)) = out @ more"
proof (induction ts arbitrary: idx lc out)
  case Nil
  then show ?case by simp
next
  case (Cons t ts)
  show ?case
  proof (cases t)
    case (JObj fields)
    from process_tiles_obj_step [of jp idx fields ts lc out]
    obtain lc1 out1 more1 where
      step: "process_tiles jp idx (JObj fields # ts) (lc, out) =
        process_tiles jp (idx + 1) ts (lc1, out1)" and out1: "out1 = out @ more1"
      by blast
    from Cons.IH [of "idx + 1" lc1 out1] obtain more where
      "snd (process_tiles jp (idx + 1) ts (lc1, out1)) = out1 @ more"
      by blast
    with step out1 JObj show ?thesis by simp
  qed simp_all
qed

lemma bad_coord_reported:
  "list_all is_obj pre \<Longrightarrow>
   valid_coord (dict_get fields (str ''coord'') (JList [])) = None \<Longrightarrow>
   BadCoordWarning jp (idx + length pre) (dict_get fields (str ''coord'') (JList []))
     \<in> set (snd (process_tiles jp idx (pre @ JObj fields # rest) (lc, out)))"
proof (induction pre arbitrary: idx lc out)
  case Nil
  let ?w = "BadCoordWarning jp idx (dict_get fields (str ''coord'') (JList []))"
  from process_tiles_out_grows [of jp "idx + 1" rest lc "out @ [?w]"]
  obtain more where "snd (process_tiles jp (idx + 1) rest (lc, out @ [?w])) = (out @ [?w]) @ more"
    by blast
  with Nil show ?case by simp
next
  case (Cons t pre)
  from Cons.prems obtain f0 where t: "t = JObj f0"
    by (cases t) auto
  from process_tiles_obj_step [of jp idx f0 "pre @ JObj fields # rest" lc out]
  obtain lc1 out1 where
    "process_tiles jp idx (JObj f0 # pre @ JObj fields # rest) (lc, out) =
      process_tiles jp (idx + 1) (pre @ JObj fields # rest) (lc1, out1)"
    by blast
  with Cons.IH [of "idx + 1" lc1 out1] Cons.prems t show ?case
    by simp
qed

lemma non_obj_reported:
  "list_all is_obj pre \<Longrightarrow> \<not> is_obj t \<Longrightarrow>
   ProcessingError jp \<in> set (snd (process_tiles jp idx (pre @ t # rest) (lc, out)))"
proof (induction pre arbitrary: idx lc out)
  case Nil
  then show ?case by (cases t) auto
next
  case (Cons t0 pre)
  from Cons.prems obtain f0 where t0: "t0 = JObj f0"
    by (cases t0) auto
  from process_tiles_obj_step [of jp idx f0 "pre @ t # rest" lc out]
  obtain lc1 out1 where
    "process_tiles jp idx (JObj f0 # pre @ t # rest) (lc, out) =
      process_tiles jp (idx + 1) (pre @ t # rest) (lc1, out1)"
    by blast
  with Cons.IH [of "idx + 1" lc1 out1] Cons.prems t0 show ?case
    by simp
qed

lemma extract_tiles:
  "tiles_of fc \<noteq> [] \<Longrightarrow>
   extract_location_coords_from_json jp fc = process_tiles jp 1 (tiles_of fc) ([], [])"
proof (cases fc)
  case (Document data)
  assume ne: "tiles_of fc \<noteq> []"
  show ?thesis
  proof (cases data)
    case (JObj fields)
    with ne Document show ?thesis
      by (cases "dict_get fields (str ''tiles'') (JList [])")
         (simp_all add: extract_location_coords_from_json_def del: process_tiles.simps)
  qed (use ne Document in simp_all)
qed simp_all

lemma extract_no_tiles:
  "tiles_of fc = [] \<Longrightarrow> snd (extract_location_coords_from_json jp fc) \<noteq> []"
proof (cases fc)
  case (Document data)
  assume e: "tiles_of fc = []"
  show ?thesis
  proof (cases data)
    case (JObj fields)
    with e Document show ?thesis
      by (cases "dict_get fields (str ''tiles'') (JList [])")
         (simp_all add: extract_location_coords_from_json_def Let_def)
  qed (use Document in \<open>simp_all add: extract_location_coords_from_json_def\<close>)
qed (simp_all add: extract_location_coords_from_json_def)








lemma merge_files_out:
  "merge_files root files (all, n, out) = (all', n', out') \<Longrightarrow>
   set out \<subseteq> set out' \<and>
   (\<forall>f \<in> set (dir_json_files root files).
      set (snd (extract_location_coords_from_json (fst f) (snd f))) \<subseteq> set out')"
proof (induction files arbitrary: all n out)
  case Nil
  then show ?case by (simp add: dir_json_files_def)
next
  case (Cons f files)
  obtain filename content where f: "f = (filename, content)" by (cases f)
  show ?case
  proof (cases "endswith filename (str ''.json'')")
    case True
    obtain d printed where
      ex: "extract_location_coords_from_json (path_join root filename) content = (d, printed)"
      by (cases "extract_location_coords_from_json (path_join root filename) content")
    from Cons.prems f True ex have
      "merge_files root files
         (merge_file all d, n + 1,
          out @ [ProcessingFile (n + 1) (path_join root filename)] @ printed) = (all', n', out')"
      by simp
    from Cons.IH [OF this] have
      ih: "set (out @ [ProcessingFile (n + 1) (path_join root filename)] @ printed) \<subseteq> set out'"
        "\<forall>f \<in> set (dir_json_files root files).
           set (snd (extract_location_coords_from_json (fst f) (snd f))) \<subseteq> set out'"
      by blast+
    from ih(1) have "set out \<subseteq> set out'" "set printed \<subseteq> set out'"
      by auto
    moreover have "dir_json_files root (f # files) =
        (path_join root filename, content) # dir_json_files root files"
      using f True by (simp add: dir_json_files_def)
    ultimately show ?thesis
      using ih(2) ex by simp
  next
    case False
    with Cons.prems f have "merge_files root files (all, n, out) = (all', n', out')"
      by simp
    from Cons.IH [OF this] f False show ?thesis
      by (simp add: dir_json_files_def)
  qed
qed

lemma merge_dirs_out:
  "merge_dirs walk (all, n, out) = (all', n', out') \<Longrightarrow>
   set out \<subseteq> set out' \<and>
   (\<forall>f \<in> set (json_files walk).
      set (snd (extract_location_coords_from_json (fst f) (snd f))) \<subseteq> set out')"
proof (induction walk arbitrary: all n out)
  case Nil
  then show ?case by (simp add: json_files_def)
next
  case (Cons dir walk)
  obtain root files where dir: "dir = (root, files)" by (cases dir)
  obtain all1 n1 out1 where
    step: "merge_files root files (all, n, out) = (all1, n1, out1)"
    by (cases "merge_files root files (all, n, out)")
  from Cons.prems dir step have "merge_dirs walk (all1, n1, out1) = (all', n', out')"
    by simp
  from Cons.IH [OF this] have
    ih: "set out1 \<subseteq> set out'"
      "\<forall>f \<in> set (json_files walk).
         set (snd (extract_location_coords_from_json (fst f) (snd f))) \<subseteq> set out'"
    by blast+
  from merge_files_out [OF step] have
    st: "set out \<subseteq> set out1"
      "\<forall>f \<in> set (dir_json_files root files).
         set (snd (extract_location_coords_from_json (fst f) (snd f))) \<subseteq> set out1"
    by blast+
  have "json_files (dir # walk) = dir_json_files root files @ json_files walk"
    using dir by (simp add: json_files_def)
  with ih st show ?case
    by (simp add: ball_Un) blast
qed

lemma merge_all_out:
  "merge_all_location_coords walk = ((merged, n), out) \<Longrightarrow> f \<in> set (json_files walk) \<Longrightarrow>
   set (snd (extract_location_coords_from_json (fst f) (snd f))) \<subseteq> set out"
proof -
  assume a: "merge_all_location_coords walk = ((merged, n), out)"
    and f: "f \<in> set (json_files walk)"
  obtain all' n' out' where m: "merge_dirs walk ([], 0, []) = (all', n', out')"
    by (cases "merge_dirs walk ([], 0, [])")
  with a have "out' = out"
    by (simp add: merge_all_location_coords_def)
  with merge_dirs_out [OF m] f show ?thesis
    by blast
qed

lemma process_json_file_failure:
  "fst (process_json_file env input_file output_file_arg backup_original) = False \<Longrightarrow>
   fst (snd (process_json_file env input_file output_file_arg backup_original)) \<noteq> []"
  by (simp add: process_json_file_def Let_def split: if_splits file_content.splits)









section \<open>The extractor: the claims\<close>

text \<open>The definitions that a run on a concrete input unfolds.\<close>

lemmas run_defs =
  str_def arrow_def dict_get_def extract_location_coords_from_json_def add_coord_def
  merge_path_def merge_all_location_coords_def tuple_in_def tuple_eq_def strip_def
  is_space_def endswith_def path_join_def coords_at_def suffix_to_prefix












text \<open>
  Claim C7, as stated, fails: a tile with a valid \<^verbatim>\<open>coord\<close> and an empty \<^verbatim>\<open>address\<close> is
  skipped (line 35) and nothing is printed.
\<close>

theorem invalid_address_tile_not_reported:
  "tiles_of
     (Document (JObj [(str ''tiles'',
        JList [JObj [(str ''coord'', JList [JInt 1, JInt 2]), (str ''address'', JList [])]])])) =
     [JObj [(str ''coord'', JList [JInt 1, JInt 2]), (str ''address'', JList [])]]
   \<and> tile_parts (JObj [(str ''coord'', JList [JInt 1, JInt 2]), (str ''address'', JList [])]) = None
   \<and> extract_location_coords_from_json (str ''a.json'')
       (Document (JObj [(str ''tiles'',
          JList [JObj [(str ''coord'', JList [JInt 1, JInt 2]), (str ''address'', JList [])]])])) =
     ([], [])"
  by (simp add: extract_location_coords_from_json_def dict_get_def str_def)

text \<open>
  Claim C7, amended. Every tile that is skipped for its \<^verbatim>\<open>coord\<close> is reported by a
  warning with its number and its coord; a tile that is not an object stops the loop
  and is reported as an error; a file from which no list of tiles is read (unreadable,
  not JSON, not an object, \<^verbatim>\<open>tiles\<close> missing, empty or not a list) is reported by a
  message; what the extraction of a file prints is part of what the merge prints; a
  missing root directory is reported; and whenever \<^verbatim>\<open>process_json_file\<close> returns
  \<^verbatim>\<open>False\<close> it has printed a message. A tile with a valid \<^verbatim>\<open>coord\<close> that is skipped
  for its \<^verbatim>\<open>address\<close> prints nothing.
\<close>

theorem skipped_coords_and_files_reported:
  "(tiles_of fc = pre @ JObj fields # rest \<and> list_all is_obj pre
      \<and> valid_coord (dict_get fields (str ''coord'') (JList [])) = None \<longrightarrow>
      BadCoordWarning jp (Suc (length pre)) (dict_get fields (str ''coord'') (JList []))
        \<in> set (snd (extract_location_coords_from_json jp fc)))
   \<and> (tiles_of fc = pre @ t # rest \<and> list_all is_obj pre \<and> \<not> is_obj t \<longrightarrow>
        ProcessingError jp \<in> set (snd (extract_location_coords_from_json jp fc)))
   \<and> (tiles_of fc = [] \<longrightarrow> snd (extract_location_coords_from_json jp fc) \<noteq> [])
   \<and> extract_location_coords_from_json jp Unreadable = ([], [ProcessingError jp])
   \<and> extract_location_coords_from_json jp InvalidJson = ([], [InvalidJsonError jp])
   \<and> (merge_all_location_coords walk = ((merged, n), printed) \<and> f \<in> set (json_files walk) \<longrightarrow>
        set (snd (extract_location_coords_from_json (fst f) (snd f))) \<subseteq> set printed)
   \<and> main None = (1, None, [RootMissing])
   \<and> (fst (process_json_file env input_file output_file_arg backup_original) = False \<longrightarrow>
        fst (snd (process_json_file env input_file output_file_arg backup_original)) \<noteq> [])
   \<and> (valid_coord (dict_get fields (str ''coord'') (JList [])) = Some c
        \<and> valid_address (dict_get fields (str ''address'') (JList [])) = None \<longrightarrow>
        process_tiles jp idx (JObj fields # rest) (lc, out) =
          process_tiles jp (idx + 1) rest (lc, out))"
proof -
  have merged_out: "merge_all_location_coords walk = ((merged, n), printed)
        \<and> f \<in> set (json_files walk) \<longrightarrow>
        set (snd (extract_location_coords_from_json (fst f) (snd f))) \<subseteq> set printed"
    using merge_all_out by blast
  have no_root: "main None = (1, None, [RootMissing])"
    by (simp add: main_def)
  have filter_failure:
    "fst (process_json_file env input_file output_file_arg backup_original) = False \<longrightarrow>
        fst (snd (process_json_file env input_file output_file_arg backup_original)) \<noteq> []"
    using process_json_file_failure by blast
  have bad: "tiles_of fc = pre @ JObj fields # rest \<and> list_all is_obj pre
      \<and> valid_coord (dict_get fields (str ''coord'') (JList [])) = None \<longrightarrow>
      BadCoordWarning jp (Suc (length pre)) (dict_get fields (str ''coord'') (JList []))
        \<in> set (snd (extract_location_coords_from_json jp fc))"
  proof (intro impI, elim conjE)
    assume ts: "tiles_of fc = pre @ JObj fields # rest" and pre: "list_all is_obj pre"
      and inv: "valid_coord (dict_get fields (str ''coord'') (JList [])) = None"
    from ts have "tiles_of fc \<noteq> []" by simp
    from extract_tiles [OF this] ts bad_coord_reported [OF pre inv, of jp 1 rest "[]" "[]"]
    show "BadCoordWarning jp (Suc (length pre)) (dict_get fields (str ''coord'') (JList []))
        \<in> set (snd (extract_location_coords_from_json jp fc))"
      by simp
  qed
  have nonobj: "tiles_of fc = pre @ t # rest \<and> list_all is_obj pre \<and> \<not> is_obj t \<longrightarrow>
        ProcessingError jp \<in> set (snd (extract_location_coords_from_json jp fc))"
  proof (intro impI, elim conjE)
    assume ts: "tiles_of fc = pre @ t # rest" and pre: "list_all is_obj pre"
      and t: "\<not> is_obj t"
    from ts have "tiles_of fc \<noteq> []" by simp
    from extract_tiles [OF this] ts non_obj_reported [OF pre t, of jp 1 rest "[]" "[]"]
    show "ProcessingError jp \<in> set (snd (extract_location_coords_from_json jp fc))"
      by simp
  qed
  have none: "tiles_of fc = [] \<longrightarrow> snd (extract_location_coords_from_json jp fc) \<noteq> []"
    using extract_no_tiles by blast
  have unreadable: "extract_location_coords_from_json jp Unreadable = ([], [ProcessingError jp])"
    by (simp add: extract_location_coords_from_json_def)
  have invalid: "extract_location_coords_from_json jp InvalidJson = ([], [InvalidJsonError jp])"
    by (simp add: extract_location_coords_from_json_def)
  have silent: "valid_coord (dict_get fields (str ''coord'') (JList [])) = Some c
        \<and> valid_address (dict_get fields (str ''address'') (JList [])) = None \<longrightarrow>
        process_tiles jp idx (JObj fields # rest) (lc, out) =
          process_tiles jp (idx + 1) rest (lc, out)"
    by simp
  show ?thesis
    by (intro conjI; fact)
qed

theorem skipped_coords_and_files_reported_witness:
  "tiles_of (Document (JObj [(str ''tiles'',
       JList [JObj [(str ''address'', JList [JStr (str ''A'')])], JInt 7])])) =
     [] @ JObj [(str ''address'', JList [JStr (str ''A'')])] # [JInt 7]
   \<and> list_all is_obj []
   \<and> valid_coord (dict_get [(str ''address'', JList [JStr (str ''A'')])] (str ''coord'') (JList []))
       = None
   \<and> BadCoordWarning (str ''a.json'') (Suc (length ([] :: json list))) (JList [])
       \<in> set (snd (extract_location_coords_from_json (str ''a.json'')
            (Document (JObj [(str ''tiles'',
               JList [JObj [(str ''address'', JList [JStr (str ''A'')])], JInt 7])]))))
   \<and> extract_location_coords_from_json (str ''a.json'')
        (Document (JObj [(str ''tiles'',
           JList [JObj [(str ''address'', JList [JStr (str ''A'')])], JInt 7])])) =
      ([], [BadCoordWarning (str ''a.json'') 1 (JList []), ProcessingError (str ''a.json'')])"
proof -
  let ?fields = "[(str ''address'', JList [JStr (str ''A'')])]"
  let ?fc = "Document (JObj [(str ''tiles'', JList [JObj ?fields, JInt 7])])"
  have ts: "tiles_of ?fc = [] @ JObj ?fields # [JInt 7]"
    by (simp add: run_defs)
  have pre: "list_all is_obj []"
    by simp
  have inv: "valid_coord (dict_get ?fields (str ''coord'') (JList [])) = None"
    by (simp add: run_defs)
  have get: "dict_get ?fields (str ''coord'') (JList []) = JList []"
    by (simp add: run_defs)
  from skipped_coords_and_files_reported
         [where fc = ?fc and pre = "[]" and fields = ?fields and rest = "[JInt 7]"
            and jp = "str ''a.json''"]
       ts pre inv
  have "BadCoordWarning (str ''a.json'') (Suc (length ([] :: json list)))
          (dict_get ?fields (str ''coord'') (JList []))
        \<in> set (snd (extract_location_coords_from_json (str ''a.json'') ?fc))"
    by blast
  moreover have "extract_location_coords_from_json (str ''a.json'') ?fc =
      ([], [BadCoordWarning (str ''a.json'') 1 (JList []), ProcessingError (str ''a.json'')])"
    by (simp add: run_defs)
  ultimately show ?thesis
    using ts pre inv unfolding get by blast
qed



text \<open>
  Claim C9. A coord of two JSON booleans passes the check, and the tile is attributed
  to its paths: \<^verbatim>\<open>[true, false]\<close> at address \<^verbatim>\<open>["A"]\<close> is stored under \<^verbatim>\<open>"A"\<close>, and
  nothing is printed.
\<close>

theorem boolean_coord_accepted:
  "valid_coord (JList [JBool True, JBool False]) = Some [PyBool True, PyBool False]
   \<and> extract_location_coords_from_json (str ''a.json'')
       (Document (JObj [(str ''tiles'',
          JList [JObj [(str ''coord'', JList [JBool True, JBool False]),
                       (str ''address'', JList [JStr (str ''A'')])]])])) =
     ([(str ''A'', [[PyBool True, PyBool False]])], [])"
  by (simp add: extract_location_coords_from_json_def dict_get_def str_def add_coord_def
        tuple_in_def strip_def is_space_def)

text \<open>
  Claim C10. In the mapping extracted from any file and in the merged result of any
  walk, every path that is present has a non-empty list: the extraction creates the
  entry of a path and appends to it in the same step, and the merge of a non-empty list
  leaves a non-empty list.
\<close>

theorem present_paths_have_coordinates:
  "(map_of (fst (extract_location_coords_from_json jp fc)) p = Some cs \<longrightarrow> cs \<noteq> [])
   \<and> (merge_all_location_coords walk = ((merged, n), out) \<and> map_of merged p = Some cs \<longrightarrow>
        cs \<noteq> [])
   \<and> (\<exists>cs'. map_of (add_coord p c lc) p = Some cs' \<and> cs' \<noteq> [])
   \<and> (coords \<noteq> [] \<longrightarrow> (\<exists>cs'. map_of (merge_path all p coords) p = Some cs' \<and> cs' \<noteq> []))"
proof -
  have one: "map_of (fst (extract_location_coords_from_json jp fc)) p = Some cs \<longrightarrow> cs \<noteq> []"
    using wf_dict_extract [of jp fc] by (simp add: wf_dict_iff)
  have all: "merge_all_location_coords walk = ((merged, n), out) \<and> map_of merged p = Some cs \<longrightarrow>
        cs \<noteq> []"
  proof (intro impI, elim conjE)
    assume w: "merge_all_location_coords walk = ((merged, n), out)"
      and look: "map_of merged p = Some cs"
    from merge_all_mappings [OF w] wf_dict_merged [of "json_files walk"]
    have "wf_dict merged" by simp
    with look show "cs \<noteq> []" by (simp add: wf_dict_iff)
  qed
  have created: "\<exists>cs'. map_of (add_coord p c lc) p = Some cs' \<and> cs' \<noteq> []"
    by (simp add: map_of_add_coord append_unique_nonempty)
  have merged_path: "coords \<noteq> [] \<longrightarrow>
      (\<exists>cs'. map_of (merge_path all p coords) p = Some cs' \<and> cs' \<noteq> [])"
    by (simp add: map_of_merge_path fold_append_unique_nonempty)
  show ?thesis
    by (intro conjI; fact)
qed

theorem present_paths_have_coordinates_witness:
  "map_of (fst (extract_location_coords_from_json (str ''a.json'')
       (Document (JObj [(str ''tiles'',
          JList [JObj [(str ''coord'', JList [JInt 1, JInt 2]),
                       (str ''address'', JList [JStr (str ''A'')])]])]))))
     (str ''A'') = Some [[PyInt 1, PyInt 2]]
   \<and> [[PyInt 1, PyInt 2]] \<noteq> ([] :: coord list)"
proof -
  let ?fc = "Document (JObj [(str ''tiles'',
          JList [JObj [(str ''coord'', JList [JInt 1, JInt 2]),
                       (str ''address'', JList [JStr (str ''A'')])]])])"
  have look: "map_of (fst (extract_location_coords_from_json (str ''a.json'') ?fc)) (str ''A'') =
      Some [[PyInt 1, PyInt 2]]"
    by (simp add: run_defs)
  with present_paths_have_coordinates
         [where jp = "str ''a.json''" and fc = ?fc and p = "str ''A''"
            and cs = "[[PyInt 1, PyInt 2]]"]
  show ?thesis by blast
qed


end
